theory Spec2Isabelle
  imports Complex_Main "HOL-Library.Word"
begin

section \<open>JavaScript strings\<close>

text \<open>
  A JavaScript string is a sequence of UTF-16 code units. The parser of
  \<^verbatim>\<open>OcrAgent.tsx\<close> only compares code units, so a string is a list of
  16-bit words. \<open>js\<close> writes an ASCII literal.
\<close>

type_synonym jsstring = "16 word list"

definition js :: "string \<Rightarrow> jsstring" where
  "js s = map of_char s"

definition TAB :: "16 word" where "TAB = 0x09"
definition LF :: "16 word" where "LF = 0x0A"
definition CR :: "16 word" where "CR = 0x0D"
definition COMMA :: "16 word" where "COMMA = 0x2C"
definition PIPE :: "16 word" where "PIPE = 0x7C"

text \<open>
  The code units that \<^verbatim>\<open>String.prototype.trim\<close> strips and that \<^verbatim>\<open>\s\<close>
  matches in a regular expression without the \<^verbatim>\<open>u\<close> flag: ECMAScript's WhiteSpace
  (TAB, VT, FF, SP, NBSP, ZWNBSP and the category Zs) and LineTerminator
  (LF, CR, LS, PS).
\<close>

definition isWhiteSpace :: "16 word \<Rightarrow> bool" where
  "isWhiteSpace c \<longleftrightarrow>
     c = 0x09 \<or> c = 0x0A \<or> c = 0x0B \<or> c = 0x0C \<or> c = 0x0D \<or> c = 0x20 \<or> c = 0xA0 \<or>
     c = 0x1680 \<or> (0x2000 \<le> c \<and> c \<le> 0x200A) \<or> c = 0x2028 \<or> c = 0x2029 \<or>
     c = 0x202F \<or> c = 0x205F \<or> c = 0x3000 \<or> c = 0xFEFF"

text \<open>\<^verbatim>\<open>s.trim()\<close>: white space is removed from both ends.\<close>

definition trim :: "jsstring \<Rightarrow> jsstring" where
  "trim s = rev (dropWhile isWhiteSpace (rev (dropWhile isWhiteSpace s)))"

text \<open>\<^verbatim>\<open>S.substring(p, q)\<close> for \<open>p \<le> q \<le> length S\<close>.\<close>

definition substring :: "jsstring \<Rightarrow> nat \<Rightarrow> nat \<Rightarrow> jsstring" where
  "substring S p q = take (q - p) (drop p S)"

text \<open>\<^verbatim>\<open>xs.join(sep)\<close>.\<close>

fun join :: "jsstring \<Rightarrow> jsstring list \<Rightarrow> jsstring" where
  "join sep [] = []"
| "join sep [x] = x"
| "join sep (x # y # ys) = x @ sep @ join sep (y # ys)"

section \<open>Regular expressions and \<^verbatim>\<open>String.prototype.split\<close>\<close>

text \<open>
  A compiled regular expression is modelled by its sticky matcher: \<open>re S q\<close> is
  \<open>None\<close> when the expression does not match \<open>S\<close> at index \<open>q\<close>, and
  \<open>Some (n, caps)\<close> when it matches the \<open>n\<close> code units from \<open>q\<close> on, with the
  values \<open>caps\<close> of its capture groups (\<open>None\<close> for a group that took no part,
  JavaScript's \<^verbatim>\<open>undefined\<close>).
\<close>

type_synonym regexp = "jsstring \<Rightarrow> nat \<Rightarrow> (nat \<times> jsstring option list) option"

datatype js_error = SyntaxError | TypeError

text \<open>
  \<^verbatim>\<open>S.split(re)\<close> is \<^verbatim>\<open>RegExp.prototype[@@split]\<close> of ECMAScript: the
  expression is tried at every index \<open>q\<close>; a match that ends at the start \<open>p\<close> of the
  current piece is skipped; otherwise the piece \<open>S[p..q)\<close> and the captures are
  pushed and the scan goes on after the match. The pieces are pushed in order, so the
  array is built front to back. (The limit of \<open>2^32 - 1\<close> elements is beyond the
  length of any string of an engine and is left out.)
\<close>

function split_loop :: "regexp \<Rightarrow> jsstring \<Rightarrow> nat \<Rightarrow> nat \<Rightarrow> jsstring option list" where
  "split_loop re S p q =
     (if q < length S then
        (case re S q of
           None \<Rightarrow> split_loop re S p (q + 1)
         | Some (n, caps) \<Rightarrow>
             (if min (q + n) (length S) = p then split_loop re S p (q + 1)
              else Some (substring S p q) # caps @
                   split_loop re S (min (q + n) (length S)) (min (q + n) (length S))))
      else [Some (substring S p (length S))])"
  by pat_completeness auto
termination
  by (relation "measures [\<lambda>(re, S, p, q). length S - q,
                          \<lambda>(re, S, p, q). if p = q then 0 else 1]")
     (auto split: if_splits)

declare split_loop.simps [simp del]

definition js_split :: "regexp \<Rightarrow> jsstring \<Rightarrow> jsstring option list" where
  "js_split re S =
     (if length S = 0 then (case re S 0 of Some z \<Rightarrow> [] | None \<Rightarrow> [Some S])
      else split_loop re S 0 0)"

text \<open>
  \<^verbatim>\<open>re.test(S)\<close> for an expression without the \<^verbatim>\<open>g\<close> and \<^verbatim>\<open>y\<close> flags: is
  there a match at some index.
\<close>

definition re_test :: "regexp \<Rightarrow> jsstring \<Rightarrow> bool" where
  "re_test re S = list_ex (\<lambda>q. re S q \<noteq> None) [0..<length S + 1]"

text \<open>
  The literal expressions of the source. None of them has a capture group. A
  greedy \<^verbatim>\<open>\s*\<close> takes the whole run of white space: giving a code unit back
  leaves a white-space code unit where the delimiter is required, so backtracking
  never finds another match.
\<close>

definition ws_run :: "jsstring \<Rightarrow> nat" where
  "ws_run xs = length (takeWhile isWhiteSpace xs)"

text \<open>A single code unit: \<^verbatim>\<open>/\t/\<close>, \<^verbatim>\<open>/\|/\<close>, \<^verbatim>\<open>/,/\<close>.\<close>

definition re_unit :: "16 word \<Rightarrow> regexp" where
  "re_unit c S q = (case drop q S of [] \<Rightarrow> None | x # xs \<Rightarrow> if x = c then Some (1, []) else None)"

text \<open>\<^verbatim>\<open>/\r?\n/\<close>\<close>

definition re_newline :: regexp where
  "re_newline S q =
     (case drop q S of
        [] \<Rightarrow> None
      | x # xs \<Rightarrow>
          if x = CR \<and> (case xs of [] \<Rightarrow> False | y # ys \<Rightarrow> y = LF) then Some (2, [])
          else if x = LF then Some (1, [])
          else None)"

text \<open>\<^verbatim>\<open>/\s*,\s*/\<close> and \<^verbatim>\<open>/\s*\|\s*/\<close>: a delimiter with the white space around it.\<close>

definition re_padded :: "16 word \<Rightarrow> regexp" where
  "re_padded c S q =
     (let xs = drop q S; a = ws_run xs in
      case drop a xs of
        [] \<Rightarrow> None
      | y # ys \<Rightarrow> if y = c then Some (a + 1 + ws_run ys, []) else None)"

text \<open>\<^verbatim>\<open>/\s{2,}/\<close>\<close>

definition re_spaces :: regexp where
  "re_spaces S q = (let a = ws_run (drop q S) in if 2 \<le> a then Some (a, []) else None)"

text \<open>The expression of the empty pattern, \<^verbatim>\<open>new RegExp("", "g")\<close>: it matches the
  empty string at every index.\<close>

definition re_empty :: regexp where
  "re_empty S q = Some (0, [])"

section \<open>The row parser\<close>

type_synonym Row = "jsstring list"

datatype Delimiter = Auto | Comma | Tab | Pipe | Spaces | Custom

record opts =
  delimiter :: Delimiter
  customPattern :: "jsstring option"

text \<open>
  \<^verbatim>\<open>xs.map((c) => c.trim())\<close> on the array that \<^verbatim>\<open>split\<close> returned. An
  element that is \<^verbatim>\<open>undefined\<close> (a capture group that took no part) has no
  \<^verbatim>\<open>trim\<close>: the call throws a TypeError.
\<close>

fun trim_each :: "jsstring option list \<Rightarrow> js_error + jsstring list" where
  "trim_each [] = Inr []"
| "trim_each (None # cs) = Inl TypeError"
| "trim_each (Some c # cs) =
     (case trim_each cs of Inl e \<Rightarrow> Inl e | Inr ts \<Rightarrow> Inr (trim c # ts))"

text \<open>\<^verbatim>\<open>lines.map(f)\<close> where \<open>f\<close> may throw: the first exception leaves the map.\<close>

fun map_rows :: "(jsstring \<Rightarrow> js_error + Row) \<Rightarrow> jsstring list \<Rightarrow> js_error + Row list" where
  "map_rows f [] = Inr []"
| "map_rows f (l # ls) =
     (case f l of
        Inl e \<Rightarrow> Inl e
      | Inr r \<Rightarrow> (case map_rows f ls of Inl e \<Rightarrow> Inl e | Inr rs \<Rightarrow> Inr (r # rs)))"

text \<open>
  Lines 58 to 61:
  \<^verbatim>\<open>text.split(/\r?\n/).map((l) => l.trim()).filter((l) => l.length > 0)\<close>
\<close>

definition text_lines :: "jsstring \<Rightarrow> js_error + jsstring list" where
  "text_lines text =
     (case trim_each (js_split re_newline text) of
        Inl e \<Rightarrow> Inl e
      | Inr ts \<Rightarrow> Inr (filter (\<lambda>l. length l > 0) ts))"

text \<open>Lines 63 to 70. The sample is the first ten lines joined by a line feed.\<close>

definition sample_of :: "jsstring list \<Rightarrow> jsstring" where
  "sample_of lines = join [LF] (take 10 lines)"

definition autoGuess :: "jsstring list \<Rightarrow> jsstring \<Rightarrow> jsstring option list" where
  "autoGuess lines =
     (let sample = sample_of lines in
      if re_test (re_unit PIPE) sample then js_split (re_padded PIPE)
      else if re_test (re_unit COMMA) sample then js_split (re_padded COMMA)
      else if re_test (re_unit TAB) sample then js_split (re_unit TAB)
      else js_split re_spaces)"

text \<open>
  Lines 72 to 97. \<open>RegExp_g pattern\<close> stands for the engine's
  \<^verbatim>\<open>new RegExp(pattern, "g")\<close>: it returns the compiled expression or throws a
  SyntaxError, which the \<^verbatim>\<open>catch\<close> of the source turns into the splitter of
  \<^verbatim>\<open>spaces\<close>. The pattern is \<^verbatim>\<open>opts.customPattern ?? "\\s+"\<close>.
\<close>

definition default_pattern :: jsstring where
  "default_pattern = [0x5C, 0x73, 0x2B]"

definition select_splitter ::
  "(jsstring \<Rightarrow> js_error + regexp) \<Rightarrow> opts \<Rightarrow> jsstring list \<Rightarrow> jsstring \<Rightarrow> jsstring option list" where
  "select_splitter RegExp_g opts lines =
     (case delimiter opts of
        Comma \<Rightarrow> js_split (re_padded COMMA)
      | Tab \<Rightarrow> js_split (re_unit TAB)
      | Pipe \<Rightarrow> js_split (re_padded PIPE)
      | Spaces \<Rightarrow> js_split re_spaces
      | Custom \<Rightarrow>
          (case RegExp_g (case customPattern opts of None \<Rightarrow> default_pattern | Some pat \<Rightarrow> pat) of
             Inr re \<Rightarrow> js_split re
           | Inl e \<Rightarrow> js_split re_spaces)
      | Auto \<Rightarrow> autoGuess lines)"

text \<open>Line 99: \<^verbatim>\<open>lines.map((l) => splitter(l).map((c) => c.trim()))\<close>\<close>

definition parseTextToRows ::
  "(jsstring \<Rightarrow> js_error + regexp) \<Rightarrow> jsstring \<Rightarrow> opts \<Rightarrow> js_error + Row list" where
  "parseTextToRows RegExp_g text opts =
     (case text_lines text of
        Inl e \<Rightarrow> Inl e
      | Inr lines \<Rightarrow>
          map_rows (\<lambda>l. trim_each (select_splitter RegExp_g opts lines l)) lines)"

section \<open>The component state\<close>

text \<open>
  \<^verbatim>\<open>ExtractResult\<close>, lines 7 to 13. The field \<^verbatim>\<open>text\<close> is called
  \<open>ocrText\<close> here and \<^verbatim>\<open>error\<close> is \<open>errorMsg\<close>. The progress is a number
  that is only stored and compared, never computed with.
\<close>

datatype Status = Idle | Recognizing | Done | Error

record ExtractResult =
  fileName :: jsstring
  ocrText :: jsstring
  progress :: real
  status :: Status
  errorMsg :: "jsstring option"

text \<open>
  The state hooks of \<^verbatim>\<open>OcrAgent\<close>, lines 103 to 107 (the two flags
  \<^verbatim>\<open>isAppending\<close> and \<^verbatim>\<open>isExporting\<close> only disable buttons). The fields
  \<open>delimiterSel\<close> and \<open>patternInput\<close> are the hooks \<^verbatim>\<open>delimiter\<close> and
  \<^verbatim>\<open>customPattern\<close>.
\<close>

record OcrAgent =
  extracts :: "ExtractResult list"
  columnsInput :: jsstring
  delimiterSel :: Delimiter
  patternInput :: jsstring
  rows :: "Row list"

text \<open>Lines 103 to 107: the initial values of the hooks.\<close>

definition initial_agent :: OcrAgent where
  "initial_agent =
     \<lparr>extracts = [], columnsInput = js ''Item, Quantity, Price'', delimiterSel = Auto,
      patternInput = [], rows = []\<rparr>"

section \<open>The row accumulator\<close>

text \<open>
  \<^verbatim>\<open>S.split(",")\<close> with a separator of one code unit: the string is cut at
  every occurrence, and the empty string gives one empty piece.
\<close>

fun cons_first :: "16 word \<Rightarrow> jsstring list \<Rightarrow> jsstring list" where
  "cons_first x [] = [[x]]"
| "cons_first x (l # ls) = (x # l) # ls"

fun split_unit :: "16 word \<Rightarrow> jsstring \<Rightarrow> jsstring list" where
  "split_unit c [] = [[]]"
| "split_unit c (x # xs) =
     (if x = c then [] # split_unit c xs else cons_first x (split_unit c xs))"

text \<open>Lines 112 to 117: the column labels are computed from the input field.\<close>

definition columns :: "'a OcrAgent_scheme \<Rightarrow> jsstring list" where
  "columns s = filter (\<lambda>c. length c > 0) (map trim (split_unit COMMA (columnsInput s)))"

text \<open>
  Lines 174 to 176: the records that are done and whose text is not blank are
  parsed with the selected policy; an exception of the parser leaves the map.
\<close>

fun map_blocks :: "('a \<Rightarrow> js_error + Row list) \<Rightarrow> 'a list \<Rightarrow> js_error + Row list list" where
  "map_blocks f [] = Inr []"
| "map_blocks f (x # xs) =
     (case f x of
        Inl e \<Rightarrow> Inl e
      | Inr b \<Rightarrow> (case map_blocks f xs of Inl e \<Rightarrow> Inl e | Inr bs \<Rightarrow> Inr (b # bs)))"

definition parsedBlocks ::
  "(jsstring \<Rightarrow> js_error + regexp) \<Rightarrow> 'a OcrAgent_scheme \<Rightarrow> js_error + Row list list" where
  "parsedBlocks RegExp_g s =
     map_blocks
       (\<lambda>x. parseTextToRows RegExp_g (ocrText x)
              \<lparr>delimiter = delimiterSel s, customPattern = Some (patternInput s)\<rparr>)
       (filter (\<lambda>x. status x = Done \<and> length (trim (ocrText x)) > 0) (extracts s))"

text \<open>
  Lines 178 and 179: \<^verbatim>\<open>parsedBlocks.flat()\<close> and
  \<^verbatim>\<open>setRows((prev) => [...prev, ...newRows])\<close>.
\<close>

definition append_blocks :: "Row list list \<Rightarrow> Row list \<Rightarrow> Row list" where
  "append_blocks blocks prev = prev @ concat blocks"

text \<open>
  Lines 171 to 183. When the parser throws, \<^verbatim>\<open>setRows\<close> is not reached and the
  state stays as it was.
\<close>

definition handleAppend ::
  "(jsstring \<Rightarrow> js_error + regexp) \<Rightarrow> 'a OcrAgent_scheme \<Rightarrow> 'a OcrAgent_scheme" where
  "handleAppend RegExp_g s =
     (case parsedBlocks RegExp_g s of
        Inl e \<Rightarrow> s
      | Inr blocks \<Rightarrow> s\<lparr>rows := append_blocks blocks (rows s)\<rparr>)"

text \<open>Line 391, the button "Clear rows": \<^verbatim>\<open>setRows([])\<close>.\<close>

definition clearRows :: "'a OcrAgent_scheme \<Rightarrow> 'a OcrAgent_scheme" where
  "clearRows s = s\<lparr>rows := []\<rparr>"

section \<open>The recognition jobs\<close>

text \<open>
  A \<^verbatim>\<open>File\<close> is known to the component by its name. What the engine later
  reports about it arrives as events.
\<close>

record File =
  name :: jsstring

text \<open>
  What runs besides the hooks: \<open>extractsLength\<close> is the value of
  \<^verbatim>\<open>extracts.length\<close> in the closure of \<^verbatim>\<open>handleFiles\<close> (the dependency of
  its \<^verbatim>\<open>useCallback\<close>, line 164); \<open>tasks\<close> holds, for every call of
  \<^verbatim>\<open>Tesseract.recognize\<close> in the order of the calls, the \<^verbatim>\<open>localIndex\<close>
  that its callbacks captured (line 130). \<open>owner\<close> is a ghost field that the
  source does not have: for every record of \<open>extracts\<close>, the number of the task
  that was started for the same file in the same call of \<^verbatim>\<open>handleFiles\<close>.
\<close>

record Runtime = OcrAgent +
  extractsLength :: nat
  tasks :: "nat list"
  owner :: "nat list"

definition initial_runtime :: Runtime where
  "initial_runtime = OcrAgent.extend initial_agent (Runtime.fields 0 [] [])"

text \<open>Lines 121 to 126: the record a file starts with.\<close>

definition initial_record :: "File \<Rightarrow> ExtractResult" where
  "initial_record f =
     \<lparr>fileName = name f, ocrText = [], progress = 0, status = Recognizing, errorMsg = None\<rparr>"

text \<open>
  Lines 135 to 139, 144 to 152 and 154 to 161: the three updaters passed to
  \<^verbatim>\<open>setExtracts\<close>. \<^verbatim>\<open>if (next[localIndex])\<close> holds exactly when the index is
  inside the array. \<^verbatim>\<open>data.text ?? ""\<close> and
  \<^verbatim>\<open>(err as Error)?.message ?? "OCR failed"\<close> take an optional string.
\<close>

definition update_progress :: "nat \<Rightarrow> real \<Rightarrow> ExtractResult list \<Rightarrow> ExtractResult list" where
  "update_progress localIndex p prev =
     (if localIndex < length prev
      then prev[localIndex := (prev ! localIndex)\<lparr>progress := p\<rparr>]
      else prev)"

definition update_done ::
  "nat \<Rightarrow> jsstring option \<Rightarrow> ExtractResult list \<Rightarrow> ExtractResult list" where
  "update_done localIndex dataText prev =
     (if localIndex < length prev
      then prev[localIndex := (prev ! localIndex)
             \<lparr>ocrText := (case dataText of None \<Rightarrow> [] | Some t \<Rightarrow> t),
              progress := 1, status := Done\<rparr>]
      else prev)"

definition update_error ::
  "nat \<Rightarrow> jsstring option \<Rightarrow> ExtractResult list \<Rightarrow> ExtractResult list" where
  "update_error localIndex message prev =
     (if localIndex < length prev
      then prev[localIndex := (prev ! localIndex)
             \<lparr>status := Error,
              errorMsg := Some (case message of None \<Rightarrow> js ''OCR failed'' | Some m \<Rightarrow> m)\<rparr>]
      else prev)"

text \<open>
  What one recognition task reports: a call of its \<^verbatim>\<open>logger\<close> with the
  message's \<^verbatim>\<open>status\<close> and its \<^verbatim>\<open>progress\<close> when that is a number, the
  promise fulfilled with \<^verbatim>\<open>data.text\<close>, or the promise rejected.
\<close>

datatype task_event =
  Logger jsstring "real option"
| Resolved "jsstring option"
| Rejected "jsstring option"

fun on_task_event :: "nat \<Rightarrow> task_event \<Rightarrow> ExtractResult list \<Rightarrow> ExtractResult list" where
  "on_task_event localIndex (Logger st (Some p)) prev =
     (if st = js ''recognizing text'' then update_progress localIndex p prev else prev)"
| "on_task_event localIndex (Logger st None) prev = prev"
| "on_task_event localIndex (Resolved dataText) prev = update_done localIndex dataText prev"
| "on_task_event localIndex (Rejected message) prev = update_error localIndex message prev"

text \<open>
  Lines 119 to 164. The new records go to the end of the list, and the task of the
  file at \<open>index\<close> captures \<^verbatim>\<open>extracts.length + index\<close>.
\<close>

definition handleFiles :: "File list option \<Rightarrow> Runtime \<Rightarrow> Runtime" where
  "handleFiles files s =
     (case files of
        None \<Rightarrow> s
      | Some fs \<Rightarrow>
          if length fs = 0 then s
          else s\<lparr>extracts := extracts s @ map initial_record fs,
                 tasks := tasks s @ map (\<lambda>index. extractsLength s + index) [0..<length fs],
                 owner := owner s @ map (\<lambda>index. length (tasks s) + index) [0..<length fs]\<rparr>)"

text \<open>Lines 194 to 197. The tasks that are running are not cancelled.\<close>

definition clearAll :: "Runtime \<Rightarrow> Runtime" where
  "clearAll s = s\<lparr>extracts := [], rows := [], owner := []\<rparr>"

text \<open>
  The component renders again after every handler and every state update, before
  the next event is dispatched; the handlers of the next event are those of that
  render, so \<^verbatim>\<open>handleFiles\<close> then sees the current \<^verbatim>\<open>extracts.length\<close>.
\<close>

definition render :: "Runtime \<Rightarrow> Runtime" where
  "render s = s\<lparr>extractsLength := length (extracts s)\<rparr>"

datatype event =
  HandleFiles "File list option"
| TaskEvent nat task_event
| ClearAll

fun step :: "Runtime \<Rightarrow> event \<Rightarrow> Runtime" where
  "step s (HandleFiles files) = render (handleFiles files s)"
| "step s (TaskEvent k te) =
     render (if k < length (tasks s)
             then s\<lparr>extracts := on_task_event (tasks s ! k) te (extracts s)\<rparr>
             else s)"
| "step s ClearAll = render (clearAll s)"

fun run :: "Runtime \<Rightarrow> event list \<Rightarrow> Runtime" where
  "run s [] = s"
| "run s (e # es) = run (step s e) es"

text \<open>
  An event of task \<open>k\<close> reaches a foreign record when it changes a record of the
  list whose owner is another task.
\<close>

definition foreign_write :: "Runtime \<Rightarrow> event \<Rightarrow> bool" where
  "foreign_write s e =
     (case e of
        TaskEvent k te \<Rightarrow>
          list_ex (\<lambda>i. extracts (step s e) ! i \<noteq> extracts s ! i \<and> owner s ! i \<noteq> k)
                  [0..<length (extracts s)]
      | _ \<Rightarrow> False)"

fun own_records_only :: "Runtime \<Rightarrow> event list \<Rightarrow> bool" where
  "own_records_only s [] = True"
| "own_records_only s (e # es) = (\<not> foreign_write s e \<and> own_records_only (step s e) es)"

text \<open>Every task points at the record that was created for it.\<close>

definition bound_to_own :: "Runtime \<Rightarrow> bool" where
  "bound_to_own s =
     list_all (\<lambda>k. tasks s ! k < length (extracts s) \<and> owner s ! (tasks s ! k) = k)
              [0..<length (tasks s)]"

section \<open>Specification of the line splitting\<close>

text \<open>
  What step 1 of the parser is meant to compute, written on the list itself and
  without indices: a line ends at a line feed, or at a carriage return that is
  followed by a line feed; every other code unit belongs to the current line.
  \<open>join_first\<close> puts what has been read of the current line in front of the
  lines that follow.
\<close>

fun split_lines :: "jsstring \<Rightarrow> jsstring list" where
  "split_lines [] = [[]]"
| "split_lines [x] = (if x = LF then [[], []] else [[x]])"
| "split_lines (x # y # ys) =
     (if x = CR \<and> y = LF then [] # split_lines ys
      else if x = LF then [] # split_lines (y # ys)
      else cons_first x (split_lines (y # ys)))"

fun join_first :: "jsstring \<Rightarrow> jsstring list \<Rightarrow> jsstring list" where
  "join_first a [] = [a]"
| "join_first a (l # ls) = (a @ l) # ls"

section \<open>The invariant of the job list\<close>

text \<open>
  As long as the list is never cleared, the ghost owners cover the list, the
  closure of \<^verbatim>\<open>handleFiles\<close> knows its length, and every task points at its own
  record.
\<close>

definition positions_agree :: "Runtime \<Rightarrow> bool" where
  "positions_agree s \<longleftrightarrow>
     length (owner s) = length (extracts s) \<and>
     extractsLength s = length (extracts s) \<and>
     bound_to_own s"

section \<open>Evaluation\<close>

lemmas parse_eval = parseTextToRows_def select_splitter_def text_lines_def js_split_def
  split_loop.simps re_newline_def re_padded_def re_unit_def re_spaces_def re_empty_def
  ws_run_def substring_def trim_def isWhiteSpace_def js_def CR_def LF_def PIPE_def COMMA_def
  TAB_def sample_of_def autoGuess_def re_test_def

lemmas state_eval = initial_runtime_def initial_agent_def handleFiles_def clearAll_def
  render_def initial_record_def update_done_def update_progress_def update_error_def
  OcrAgent.extend_def Runtime.fields_def foreign_write_def bound_to_own_def

section \<open>The line splitting refines its specification\<close>

lemma split_lines_nonempty: "split_lines xs \<noteq> []"
  by (induction xs rule: split_lines.induct)
     (auto split: list.splits, (case_tac "split_lines (y # ys)"; simp)+)

lemma trim_each_map_Some: "trim_each (map Some xs) = Inr (map trim xs)"
  by (induction xs) auto

lemma join_first_cons_first:
  "ls \<noteq> [] \<Longrightarrow> join_first a (cons_first x ls) = join_first (a @ [x]) ls"
  by (cases ls) auto

lemma join_first_Nil: "join_first [] (split_lines xs) = split_lines xs"
  using split_lines_nonempty [of xs] by (cases "split_lines xs") auto

lemma substring_same: "substring S p p = []"
  by (simp add: substring_def)

lemma substring_Suc:
  "p \<le> q \<Longrightarrow> q < length S \<Longrightarrow> substring S p (Suc q) = substring S p q @ [S ! q]"
  by (simp add: substring_def Suc_diff_le take_Suc_conv_app_nth)

lemma CR_neq_LF: "CR \<noteq> LF"
  by (simp add: CR_def LF_def)

lemma split_lines_plain:
  "x \<noteq> LF \<Longrightarrow> \<not> (x = CR \<and> (case xs of [] \<Rightarrow> False | y # ys \<Rightarrow> y = LF)) \<Longrightarrow>
   split_lines (x # xs) = cons_first x (split_lines xs)"
  by (cases xs) auto

lemma split_lines_LF: "split_lines (LF # xs) = [] # split_lines xs"
  using CR_neq_LF by (cases xs) auto

text \<open>
  The loop at \<open>(p, q)\<close> has read \<open>S[p..q)\<close> of the current line and found no
  line end in it.
\<close>

lemma split_loop_newline:
  "p \<le> q \<Longrightarrow> q \<le> length S \<Longrightarrow>
   split_loop re_newline S p q =
     map Some (join_first (substring S p q) (split_lines (drop q S)))"
proof (induction re_newline S p q rule: split_loop.induct)
  case (1 S p q)
  show ?case
  proof (cases "q < length S")
    case False
    with "1.prems" have "q = length S" by simp
    then show ?thesis by (subst split_loop.simps) (simp add: substring_def)
  next
    case True
    define x xs where "x = S ! q" and "xs = drop (Suc q) S"
    have dq: "drop q S = x # xs"
      using True by (simp add: x_def xs_def Cons_nth_drop_Suc)
    consider (crlf) ys where "x = CR" "xs = LF # ys"
      | (lf) "x = LF"
      | (plain) "x \<noteq> LF" "\<not> (x = CR \<and> (case xs of [] \<Rightarrow> False | y # ys \<Rightarrow> y = LF))"
      by (cases xs) auto
    then show ?thesis
    proof cases
      case crlf
      have m: "re_newline S q = Some (2, [])"
        by (simp add: re_newline_def dq crlf)
      have len: "q + 2 \<le> length S"
      proof -
        have "length (drop q S) = Suc (Suc (length ys))" by (simp add: dq crlf)
        then show ?thesis by simp
      qed
      have d2: "drop (Suc (Suc q)) S = ys"
      proof -
        have "drop (Suc (Suc q)) S = drop 2 (drop q S)" by simp
        then show ?thesis by (simp add: dq crlf)
      qed
      have ih: "split_loop re_newline S (q + 2) (q + 2) =
                map Some (join_first (substring S (q + 2) (q + 2)) (split_lines (drop (q + 2) S)))"
        using "1.hyps"(3) [OF True m refl] "1.prems" len by (simp add: min_def)
      have "split_loop re_newline S p q =
            Some (substring S p q) # split_loop re_newline S (q + 2) (q + 2)"
        using True m len "1.prems" by (subst split_loop.simps) (simp add: min_def)
      also have "\<dots> = map Some (substring S p q # split_lines ys)"
        using ih by (simp add: d2 substring_same join_first_Nil)
      finally show ?thesis
        by (simp add: dq crlf)
    next
      case lf
      have m: "re_newline S q = Some (1, [])"
        using CR_neq_LF by (simp add: re_newline_def dq lf)
      have ih: "split_loop re_newline S (q + 1) (q + 1) =
                map Some (join_first (substring S (q + 1) (q + 1)) (split_lines (drop (q + 1) S)))"
        using "1.hyps"(3) [OF True m refl] "1.prems" True by (simp add: min_def)
      have "split_loop re_newline S p q =
            Some (substring S p q) # split_loop re_newline S (q + 1) (q + 1)"
        using True m "1.prems" by (subst split_loop.simps) (simp add: min_def)
      also have "\<dots> = map Some (substring S p q # split_lines xs)"
        using ih by (simp add: xs_def substring_same join_first_Nil)
      finally show ?thesis
        by (simp add: dq lf split_lines_LF)
    next
      case plain
      have m: "re_newline S q = None"
        using plain by (auto simp add: re_newline_def dq)
      have ih: "split_loop re_newline S p (q + 1) =
                map Some (join_first (substring S p (q + 1)) (split_lines (drop (q + 1) S)))"
        using "1.hyps"(1) [OF True m] "1.prems" True by simp
      have "split_loop re_newline S p q = split_loop re_newline S p (q + 1)"
        using True m by (subst split_loop.simps) simp
      also have "\<dots> = map Some (join_first (substring S p q @ [x]) (split_lines xs))"
        using ih "1.prems" True by (simp add: substring_Suc x_def xs_def)
      finally show ?thesis
        using plain split_lines_nonempty [of xs]
        by (simp add: dq split_lines_plain join_first_cons_first)
    qed
  qed
qed

lemma js_split_newline: "js_split re_newline S = map Some (split_lines S)"
proof (cases "S = []")
  case True
  then show ?thesis by (simp add: js_split_def re_newline_def)
next
  case False
  have "split_loop re_newline S 0 0 =
        map Some (join_first (substring S 0 0) (split_lines (drop 0 S)))"
    by (rule split_loop_newline) simp_all
  then show ?thesis
    using False by (simp add: js_split_def substring_same join_first_Nil)
qed

lemma text_lines_eq:
  "text_lines input = Inr (filter (\<lambda>l. l \<noteq> []) (map trim (split_lines input)))"
  by (simp add: text_lines_def js_split_newline trim_each_map_Some)

section \<open>Facts about splitting\<close>

lemma split_loop_no_undefined:
  assumes "\<forall>T i n caps. re T i = Some (n, caps) \<longrightarrow> caps = []"
  shows "None \<notin> set (split_loop re S p q)"
  using assms
proof (induction re S p q rule: split_loop.induct)
  case (1 re S p q)
  show ?case
  proof (cases "q < length S")
    case False
    then show ?thesis by (subst split_loop.simps) simp
  next
    case True
    show ?thesis
    proof (cases "re S q")
      case None
      with True "1.IH"(1) "1.prems" show ?thesis by (subst split_loop.simps) simp
    next
      case (Some z)
      obtain n caps where z: "z = (n, caps)" by (cases z)
      have caps: "caps = []" using "1.prems" Some z by simp
      show ?thesis
      proof (cases "min (q + n) (length S) = p")
        case same: True
        with True Some z "1.IH"(2) "1.prems" show ?thesis by (subst split_loop.simps) simp
      next
        case other: False
        with True Some z caps "1.IH"(3) "1.prems" show ?thesis
          by (subst split_loop.simps) simp
      qed
    qed
  qed
qed

lemma js_split_no_undefined:
  assumes "\<forall>T i n caps. re T i = Some (n, caps) \<longrightarrow> caps = []"
  shows "None \<notin> set (js_split re S)"
  using split_loop_no_undefined [of re S 0 0] assms
  by (auto simp add: js_split_def split: option.splits)

lemma trim_each_defined:
  "None \<notin> set cs \<Longrightarrow> trim_each cs = Inr (map (\<lambda>c. trim (the c)) cs)"
  by (induction cs rule: trim_each.induct) auto

lemma map_rows_Inr:
  "(\<And>l. l \<in> set ls \<Longrightarrow> f l = Inr (g l)) \<Longrightarrow> map_rows f ls = Inr (map g ls)"
  by (induction ls) auto

lemma rows_defined:
  assumes "\<forall>T i n caps. re T i = Some (n, caps) \<longrightarrow> caps = []"
  shows "map_rows (\<lambda>l. trim_each (js_split re l)) ls =
         Inr (map (\<lambda>l. map (\<lambda>c. trim (the c)) (js_split re l)) ls)"
  by (rule map_rows_Inr) (simp add: trim_each_defined js_split_no_undefined [OF assms])

lemma re_spaces_no_captures:
  "\<forall>T i n caps. re_spaces T i = Some (n, caps) \<longrightarrow> caps = []"
  by (simp add: re_spaces_def Let_def)

lemma re_unit_match: "re_unit c S q \<noteq> None \<longleftrightarrow> q < length S \<and> S ! q = c"
proof (cases "q < length S")
  case True
  then have "drop q S = S ! q # drop (Suc q) S" by (simp add: Cons_nth_drop_Suc)
  then show ?thesis using True by (simp add: re_unit_def)
next
  case False
  then show ?thesis by (simp add: re_unit_def)
qed

lemma re_test_unit: "re_test (re_unit c) S \<longleftrightarrow> c \<in> set S"
  unfolding re_test_def list_ex_iff re_unit_match
  by (auto simp add: in_set_conv_nth)

lemma autoGuess_pipe:
  "PIPE \<in> set (sample_of lines) \<Longrightarrow> autoGuess lines = js_split (re_padded PIPE)"
  by (simp add: autoGuess_def re_test_unit)

lemma trim_all_white:
  assumes "\<forall>c \<in> set s. isWhiteSpace c"
  shows "trim s = []"
proof -
  have d: "dropWhile isWhiteSpace s = []"
    using assms by simp
  show ?thesis unfolding trim_def d by simp
qed

lemma set_cons_first:
  "l \<in> set (cons_first x ls) \<Longrightarrow> set l \<subseteq> insert x (\<Union>(set ` set ls))"
  by (cases ls) auto

lemma split_lines_subset: "l \<in> set (split_lines xs) \<Longrightarrow> set l \<subseteq> set xs"
proof (induction xs arbitrary: l rule: split_lines.induct)
  case 1
  then show ?case by simp
next
  case (2 x)
  then show ?case by (auto split: if_splits)
next
  case (3 x y ys)
  then show ?case
    by (auto split: if_splits dest!: set_cons_first)
qed

text \<open>
  With the empty expression the loop alternates: at \<open>q = p\<close> the empty match ends
  at the start of the piece and is skipped, at \<open>q = p + 1\<close> it cuts one code unit off.
\<close>

lemma split_loop_empty:
  "p < length S \<Longrightarrow> split_loop re_empty S p p = map (\<lambda>c. Some [c]) (drop p S)"
proof (induction "length S - p" arbitrary: p)
  case 0
  then show ?case by simp
next
  case (Suc k)
  have step1: "split_loop re_empty S p p = split_loop re_empty S p (p + 1)"
    using Suc.prems by (subst split_loop.simps) (simp add: re_empty_def)
  have piece: "substring S p (p + 1) = [S ! p]"
    using Suc.prems by (simp add: substring_def take_Suc_conv_app_nth)
  have dp: "drop p S = S ! p # drop (Suc p) S"
    using Suc.prems by (simp add: Cons_nth_drop_Suc)
  show ?case
  proof (cases "p + 1 < length S")
    case True
    have "split_loop re_empty S p (p + 1) =
          Some [S ! p] # split_loop re_empty S (p + 1) (p + 1)"
      using True piece by (subst split_loop.simps) (simp add: re_empty_def)
    moreover have "split_loop re_empty S (p + 1) (p + 1) =
                   map (\<lambda>c. Some [c]) (drop (p + 1) S)"
      using Suc.hyps True by (intro Suc.hyps(1)) auto
    ultimately show ?thesis
      using step1 dp by simp
  next
    case False
    then have e: "length S = p + 1" using Suc.prems by simp
    have "split_loop re_empty S p (p + 1) = [Some [S ! p]]"
      using e piece by (subst split_loop.simps) simp
    then show ?thesis
      using step1 dp e by simp
  qed
qed

lemma js_split_empty: "js_split re_empty S = map (\<lambda>c. Some [c]) S"
  using split_loop_empty [of 0 S]
  by (cases "S = []") (simp_all add: js_split_def re_empty_def)

section \<open>The claims about the row parser\<close>

text \<open>
  Claim C4. When the sample, the first ten retained lines joined by line feeds,
  contains the code unit \<^verbatim>\<open>|\<close>, parsing under the policy \<^verbatim>\<open>auto\<close> returns
  what parsing the same text under the policy \<^verbatim>\<open>pipe\<close> returns, whatever else
  the sample contains.
\<close>

theorem auto_with_pipe_equals_pipe:
  assumes "text_lines input = Inr lines" and "PIPE \<in> set (sample_of lines)"
  shows "parseTextToRows RegExp_g input (opts\<lparr>delimiter := Auto\<rparr>) =
         parseTextToRows RegExp_g input (opts\<lparr>delimiter := Pipe\<rparr>)"
  using assms by (simp add: parseTextToRows_def select_splitter_def autoGuess_pipe)

theorem auto_with_pipe_equals_pipe_witness:
  "text_lines (js ''a,b | c'') = Inr [js ''a,b | c''] \<and>
   PIPE \<in> set (sample_of [js ''a,b | c'']) \<and>
   parseTextToRows (\<lambda>p. Inl SyntaxError) (js ''a,b | c'')
     \<lparr>delimiter = Auto, customPattern = None\<rparr> = Inr [[js ''a,b'', js ''c'']]"
proof -
  have l: "text_lines (js ''a,b | c'') = Inr [js ''a,b | c'']"
    by (simp add: parse_eval)
  have m: "PIPE \<in> set (sample_of [js ''a,b | c''])"
    by (simp add: parse_eval)
  have p: "parseTextToRows (\<lambda>p. Inl SyntaxError) (js ''a,b | c'')
             \<lparr>delimiter = Pipe, customPattern = None\<rparr> = Inr [[js ''a,b'', js ''c'']]"
    by (simp add: parse_eval)
  from auto_with_pipe_equals_pipe
         [OF l m, of "\<lambda>p. Inl SyntaxError" "\<lparr>delimiter = Auto, customPattern = None\<rparr>"] l m p
  show ?thesis by simp
qed

text \<open>
  Claim C5. When the engine rejects the custom pattern, parsing under the policy
  \<^verbatim>\<open>custom\<close> throws nothing: it returns rows, the ones that parsing the same
  text under the policy \<^verbatim>\<open>spaces\<close> returns.
\<close>

theorem invalid_custom_pattern_equals_spaces:
  assumes "delimiter opts = Custom" and "customPattern opts = Some pat"
    and "RegExp_g pat = Inl err"
  shows "parseTextToRows RegExp_g input opts =
           parseTextToRows RegExp_g input (opts\<lparr>delimiter := Spaces\<rparr>) \<and>
         (\<exists>rs. parseTextToRows RegExp_g input opts = Inr rs)"
proof -
  have sel: "select_splitter RegExp_g opts lines = js_split re_spaces" for lines
    using assms by (simp add: select_splitter_def)
  have sel': "select_splitter RegExp_g (opts\<lparr>delimiter := Spaces\<rparr>) lines = js_split re_spaces"
    for lines
    by (simp add: select_splitter_def)
  have "\<exists>rs. parseTextToRows RegExp_g input opts = Inr rs"
    by (simp add: parseTextToRows_def text_lines_eq sel rows_defined [OF re_spaces_no_captures])
  then show ?thesis
    by (simp add: parseTextToRows_def text_lines_eq sel sel')
qed

theorem invalid_custom_pattern_equals_spaces_witness:
  "parseTextToRows (\<lambda>p. if p = [] then Inr re_empty else Inl SyntaxError) (js ''a b   c'')
     \<lparr>delimiter = Custom, customPattern = Some (js ''('')\<rparr> = Inr [[js ''a b'', js ''c'']]"
proof -
  have s: "parseTextToRows (\<lambda>p. if p = [] then Inr re_empty else Inl SyntaxError)
             (js ''a b   c'') \<lparr>delimiter = Spaces, customPattern = Some (js ''('')\<rparr> =
           Inr [[js ''a b'', js ''c'']]"
    by (simp add: parse_eval)
  show ?thesis
    using invalid_custom_pattern_equals_spaces
      [where RegExp_g = "\<lambda>p. if p = [] then Inr re_empty else Inl SyntaxError"
         and opts = "\<lparr>delimiter = Custom, customPattern = Some (js ''('')\<rparr>"
         and pat = "js ''(''" and err = SyntaxError and input = "js ''a b   c''"] s
    by (simp add: js_def)
qed

text \<open>
  Claim C6, as amended. Under every policy, step 1 of parsing cuts the text at
  every line feed and at every carriage return followed by a line feed (and nowhere
  else), trims each line, drops the lines that are empty after trimming and keeps
  the order of the others; the rows are computed from these lines.
\<close>

theorem lines_are_split_trimmed_filtered:
  "text_lines input = Inr (filter (\<lambda>l. l \<noteq> []) (map trim (split_lines input))) \<and>
   parseTextToRows RegExp_g input opts =
     map_rows (\<lambda>l. trim_each (select_splitter RegExp_g opts
                  (filter (\<lambda>l. l \<noteq> []) (map trim (split_lines input))) l))
              (filter (\<lambda>l. l \<noteq> []) (map trim (split_lines input)))"
  by (simp add: parseTextToRows_def text_lines_eq)

text \<open>
  Claim C6 as it is written fails for the line ending of a carriage return alone:
  the text \<^verbatim>\<open>a\rb\<close> is kept as one line, with the carriage return inside it.
\<close>

theorem lone_CR_does_not_end_a_line:
  "text_lines (js ''a'' @ [CR] @ js ''b'') = Inr [js ''a'' @ [CR] @ js ''b''] \<and>
   text_lines (js ''a'' @ [CR] @ js ''b'') \<noteq> Inr [js ''a'', js ''b'']"
  by (simp add: parse_eval)

text \<open>
  Claim C8. A text that is empty or holds only white space parses to no rows under
  every policy, and nothing is thrown.
\<close>

theorem blank_text_has_no_rows:
  assumes "\<forall>c \<in> set input. isWhiteSpace c"
  shows "parseTextToRows RegExp_g input opts = Inr []"
proof -
  have "trim l = []" if "l \<in> set (split_lines input)" for l
    using split_lines_subset [OF that] assms by (intro trim_all_white) auto
  then have "filter (\<lambda>l. l \<noteq> []) (map trim (split_lines input)) = []"
    by (simp add: filter_empty_conv)
  then show ?thesis
    by (simp add: parseTextToRows_def text_lines_eq)
qed

theorem blank_text_has_no_rows_witness:
  "list_all isWhiteSpace [0x20, TAB, LF, CR, LF, 0x3000] \<and>
   parseTextToRows (\<lambda>p. Inl SyntaxError) [0x20, TAB, LF, CR, LF, 0x3000]
     \<lparr>delimiter = Comma, customPattern = None\<rparr> = Inr [] \<and>
   parseTextToRows (\<lambda>p. Inl SyntaxError) [] \<lparr>delimiter = Auto, customPattern = None\<rparr> = Inr []"
  using blank_text_has_no_rows [of "[0x20, TAB, LF, CR, LF, 0x3000]" "\<lambda>p. Inl SyntaxError"
          "\<lparr>delimiter = Comma, customPattern = None\<rparr>"]
        blank_text_has_no_rows [of "[]" "\<lambda>p. Inl SyntaxError"
          "\<lparr>delimiter = Auto, customPattern = None\<rparr>"]
  by (simp add: isWhiteSpace_def TAB_def LF_def CR_def)

text \<open>
  Claim C10. The pattern field starts empty. When the engine compiles the empty
  pattern to the expression that matches the empty string everywhere, the policy
  \<^verbatim>\<open>custom\<close> does not fall back to \<^verbatim>\<open>spaces\<close>: every retained line is cut
  between all its code units, and each cell is one code unit, trimmed.
\<close>

theorem empty_custom_pattern_splits_every_unit:
  assumes "RegExp_g [] = Inr re_empty" and "delimiter opts = Custom"
    and "customPattern opts = Some []"
  shows "patternInput initial_agent = [] \<and>
         select_splitter RegExp_g opts ls = js_split re_empty \<and>
         (\<exists>lines. text_lines input = Inr lines \<and>
            parseTextToRows RegExp_g input opts = Inr (map (map (\<lambda>c. trim [c])) lines))"
proof -
  have sel: "select_splitter RegExp_g opts lines = js_split re_empty" for lines
    using assms by (simp add: select_splitter_def)
  have cells: "trim_each (map (\<lambda>c. Some [c]) l) = Inr (map (\<lambda>c. trim [c]) l)" for l
    by (induction l) simp_all
  have "map_rows (\<lambda>l. trim_each (js_split re_empty l)) ls = Inr (map (map (\<lambda>c. trim [c])) ls)"
    for ls
    by (rule map_rows_Inr) (simp add: js_split_empty cells)
  then show ?thesis
    by (simp add: parseTextToRows_def text_lines_eq sel initial_agent_def)
qed

theorem empty_custom_pattern_splits_every_unit_witness:
  "parseTextToRows (\<lambda>p. if p = [] then Inr re_empty else Inl SyntaxError)
     (js ''  ab c '' @ [LF] @ js ''d'') \<lparr>delimiter = Custom, customPattern = Some []\<rparr> =
   Inr [[js ''a'', js ''b'', [], js ''c''], [js ''d'']]"
proof -
  have l: "text_lines (js ''  ab c '' @ [LF] @ js ''d'') = Inr [js ''ab c'', js ''d'']"
    by (simp add: parse_eval)
  have t: "map (map (\<lambda>c. trim [c])) [js ''ab c'', js ''d''] =
           [[js ''a'', js ''b'', [], js ''c''], [js ''d'']]"
    by (simp add: parse_eval)
  show ?thesis
    using empty_custom_pattern_splits_every_unit
      [where RegExp_g = "\<lambda>p. if p = [] then Inr re_empty else Inl SyntaxError"
         and opts = "\<lparr>delimiter = Custom, customPattern = Some []\<rparr>"
         and input = "js ''  ab c '' @ [LF] @ js ''d''"] l t
    by simp
qed

section \<open>The job list keeps its invariant\<close>

lemma length_on_task_event: "length (on_task_event i te xs) = length xs"
  by (cases "(i, te, xs)" rule: on_task_event.cases)
     (simp_all add: update_progress_def update_done_def update_error_def)

lemma on_task_event_other: "j \<noteq> i \<Longrightarrow> on_task_event i te xs ! j = xs ! j"
  by (cases "(i, te, xs)" rule: on_task_event.cases)
     (simp_all add: update_progress_def update_done_def update_error_def)

lemma positions_agree_iff:
  "positions_agree s \<longleftrightarrow>
     length (owner s) = length (extracts s) \<and>
     extractsLength s = length (extracts s) \<and>
     (\<forall>k < length (tasks s). tasks s ! k < length (extracts s) \<and> owner s ! (tasks s ! k) = k)"
  by (auto simp add: positions_agree_def bound_to_own_def list_all_iff)

lemma positions_agree_initial: "positions_agree initial_runtime"
  by (simp add: positions_agree_iff initial_runtime_def initial_agent_def
      OcrAgent.extend_def Runtime.fields_def)

lemma positions_agree_handleFiles:
  assumes "positions_agree s"
  shows "positions_agree (step s (HandleFiles files))"
proof (cases files)
  case None
  with assms show ?thesis
    by (simp add: positions_agree_iff handleFiles_def render_def)
next
  case (Some fs)
  show ?thesis
  proof (cases "length fs = 0")
    case True
    with Some assms show ?thesis
      by (simp add: positions_agree_iff handleFiles_def render_def)
  next
    case False
    have c: "length (owner s) = length (extracts s)"
      using assms by (simp add: positions_agree_iff)
    have "tasks (step s (HandleFiles files)) ! k < length (extracts (step s (HandleFiles files))) \<and>
          owner (step s (HandleFiles files)) ! (tasks (step s (HandleFiles files)) ! k) = k"
      if "k < length (tasks (step s (HandleFiles files)))" for k
    proof (cases "k < length (tasks s)")
      case True
      with assms have a: "tasks s ! k < length (extracts s)" and b: "owner s ! (tasks s ! k) = k"
        by (simp_all add: positions_agree_iff)
      from a have "tasks s ! k < length (extracts s) + length fs" by simp
      with True a b c Some False show ?thesis
        by (simp add: handleFiles_def render_def nth_append)
    next
      case old: False
      with that assms Some False show ?thesis
        by (auto simp add: positions_agree_iff handleFiles_def render_def nth_append)
    qed
    moreover have "length (owner (step s (HandleFiles files))) =
                   length (extracts (step s (HandleFiles files)))"
      using c Some False by (simp add: handleFiles_def render_def)
    moreover have "extractsLength (step s (HandleFiles files)) =
                   length (extracts (step s (HandleFiles files)))"
      by (simp add: render_def)
    ultimately show ?thesis
      unfolding positions_agree_iff by blast
  qed
qed

lemma positions_agree_task:
  assumes "positions_agree s"
  shows "positions_agree (step s (TaskEvent k te))"
  using assms by (simp add: positions_agree_iff render_def length_on_task_event)

lemma own_write_only:
  assumes "positions_agree s"
  shows "\<not> foreign_write s (TaskEvent k te)"
proof (cases "k < length (tasks s)")
  case False
  then show ?thesis
    by (simp add: foreign_write_def render_def list_ex_iff)
next
  case True
  have "extracts (step s (TaskEvent k te)) ! i = extracts s ! i"
    if "i < length (extracts s)" "owner s ! i \<noteq> k" for i
  proof -
    have "i \<noteq> tasks s ! k"
      using assms True that by (auto simp add: positions_agree_iff)
    then show ?thesis
      using True by (simp add: render_def on_task_event_other)
  qed
  then show ?thesis
    by (auto simp add: foreign_write_def list_ex_iff simp del: step.simps)
qed

lemma positions_agree_step:
  "positions_agree s \<Longrightarrow> e \<noteq> ClearAll \<Longrightarrow> positions_agree (step s e)"
  by (cases e) (simp_all add: positions_agree_handleFiles positions_agree_task del: step.simps)

lemma no_foreign_write:
  "positions_agree s \<Longrightarrow> \<not> foreign_write s e"
proof (cases e)
  case (TaskEvent k te)
  assume "positions_agree s"
  then show ?thesis using own_write_only TaskEvent by simp
qed (simp_all add: foreign_write_def)

lemma own_records_only_run:
  "positions_agree s \<Longrightarrow> ClearAll \<notin> set evs \<Longrightarrow>
   own_records_only s evs \<and> positions_agree (run s evs)"
proof (induction evs arbitrary: s)
  case Nil
  then show ?case by simp
next
  case (Cons e evs)
  from Cons.prems have e: "e \<noteq> ClearAll" and rest: "ClearAll \<notin> set evs" by auto
  have "positions_agree (step s e)"
    using Cons.prems(1) e by (rule positions_agree_step)
  from Cons.IH [OF this rest] no_foreign_write [OF Cons.prems(1), of e]
  show ?case by simp
qed

section \<open>The claims about the recognition jobs\<close>

text \<open>
  As long as the list is never cleared the positional index is right: in every
  run that consists of file submissions and of the events of the recognition
  tasks, in any order and with later batches submitted while earlier tasks are
  still running, no progress, completion or error event changes a record that
  belongs to another task, and every task stays bound to the record that was
  created for it.
\<close>

theorem tasks_update_only_their_own_record:
  assumes "ClearAll \<notin> set evs"
  shows "own_records_only initial_runtime evs \<and> bound_to_own (run initial_runtime evs)"
  using own_records_only_run [OF positions_agree_initial assms]
  by (simp add: positions_agree_def)

theorem tasks_update_only_their_own_record_witness:
  "ClearAll \<notin> set [HandleFiles (Some [\<lparr>name = js ''a''\<rparr>]),
       TaskEvent 0 (Logger (js ''recognizing text'') (Some (1/2))),
       HandleFiles (Some [\<lparr>name = js ''b''\<rparr>, \<lparr>name = js ''c''\<rparr>]),
       TaskEvent 2 (Rejected None), TaskEvent 0 (Resolved (Some (js ''x'')))] \<and>
   extracts (run initial_runtime [HandleFiles (Some [\<lparr>name = js ''a''\<rparr>]),
       TaskEvent 0 (Logger (js ''recognizing text'') (Some (1/2))),
       HandleFiles (Some [\<lparr>name = js ''b''\<rparr>, \<lparr>name = js ''c''\<rparr>]),
       TaskEvent 2 (Rejected None), TaskEvent 0 (Resolved (Some (js ''x'')))]) =
     [\<lparr>fileName = js ''a'', ocrText = js ''x'', progress = 1, status = Done, errorMsg = None\<rparr>,
      \<lparr>fileName = js ''b'', ocrText = [], progress = 0, status = Recognizing, errorMsg = None\<rparr>,
      \<lparr>fileName = js ''c'', ocrText = [], progress = 0, status = Error,
         errorMsg = Some (js ''OCR failed'')\<rparr>] \<and>
   own_records_only initial_runtime [HandleFiles (Some [\<lparr>name = js ''a''\<rparr>]),
       TaskEvent 0 (Logger (js ''recognizing text'') (Some (1/2))),
       HandleFiles (Some [\<lparr>name = js ''b''\<rparr>, \<lparr>name = js ''c''\<rparr>]),
       TaskEvent 2 (Rejected None), TaskEvent 0 (Resolved (Some (js ''x'')))]"
proof -
  let ?tr = "[HandleFiles (Some [\<lparr>name = js ''a''\<rparr>]),
       TaskEvent 0 (Logger (js ''recognizing text'') (Some (1/2))),
       HandleFiles (Some [\<lparr>name = js ''b''\<rparr>, \<lparr>name = js ''c''\<rparr>]),
       TaskEvent 2 (Rejected None), TaskEvent 0 (Resolved (Some (js ''x'')))]"
  have n: "ClearAll \<notin> set ?tr" by simp
  have e: "extracts (run initial_runtime ?tr) =
     [\<lparr>fileName = js ''a'', ocrText = js ''x'', progress = 1, status = Done, errorMsg = None\<rparr>,
      \<lparr>fileName = js ''b'', ocrText = [], progress = 0, status = Recognizing, errorMsg = None\<rparr>,
      \<lparr>fileName = js ''c'', ocrText = [], progress = 0, status = Error,
         errorMsg = Some (js ''OCR failed'')\<rparr>]"
    by (simp add: state_eval)
  from tasks_update_only_their_own_record [OF n] n e show ?thesis by blast
qed

text \<open>
  Claim C1 fails on the code once the list is cleared between two submissions.
  File \<open>a\<close> is submitted and its task captures \<^verbatim>\<open>localIndex\<close> 0; the list is
  cleared; the files \<open>c\<close> and \<open>d\<close> are submitted while the task of \<open>a\<close> is still
  running, and the record of \<open>c\<close> takes position 0. The progress event of the task
  of \<open>a\<close> is then applied to the record of \<open>c\<close>, which belongs to task 1: an event
  of one job's task changes the record of another job.
\<close>

theorem stale_progress_reaches_other_record:
  "owner (run initial_runtime
     [HandleFiles (Some [\<lparr>name = js ''a''\<rparr>]), ClearAll,
      HandleFiles (Some [\<lparr>name = js ''c''\<rparr>, \<lparr>name = js ''d''\<rparr>])]) = [1, 2] \<and>
   tasks (run initial_runtime
     [HandleFiles (Some [\<lparr>name = js ''a''\<rparr>]), ClearAll,
      HandleFiles (Some [\<lparr>name = js ''c''\<rparr>, \<lparr>name = js ''d''\<rparr>])]) = [0, 0, 1] \<and>
   extracts (run initial_runtime
     [HandleFiles (Some [\<lparr>name = js ''a''\<rparr>]), ClearAll,
      HandleFiles (Some [\<lparr>name = js ''c''\<rparr>, \<lparr>name = js ''d''\<rparr>]),
      TaskEvent 0 (Logger (js ''recognizing text'') (Some (1/2)))]) =
     [\<lparr>fileName = js ''c'', ocrText = [], progress = 1/2, status = Recognizing,
        errorMsg = None\<rparr>,
      \<lparr>fileName = js ''d'', ocrText = [], progress = 0, status = Recognizing,
        errorMsg = None\<rparr>] \<and>
   \<not> own_records_only initial_runtime
     [HandleFiles (Some [\<lparr>name = js ''a''\<rparr>]), ClearAll,
      HandleFiles (Some [\<lparr>name = js ''c''\<rparr>, \<lparr>name = js ''d''\<rparr>]),
      TaskEvent 0 (Logger (js ''recognizing text'') (Some (1/2)))]"
  by (simp add: state_eval)

text \<open>
  Claim C2 fails on the code. A task started before \<^verbatim>\<open>clearAll\<close> keeps its
  \<^verbatim>\<open>localIndex\<close>; the test \<^verbatim>\<open>if (next[localIndex])\<close> drops its result only
  while the new list is shorter than that index. Here file \<open>a\<close> is submitted, the
  list is cleared, file \<open>c\<close> is submitted and gets position 0 and task 1; the result
  of task 0 is then written into the record of \<open>c\<close>.
\<close>

theorem stale_task_writes_after_clear:
  "run initial_runtime
     [HandleFiles (Some [\<lparr>name = js ''a''\<rparr>]), ClearAll,
      HandleFiles (Some [\<lparr>name = js ''c''\<rparr>])] =
     initial_runtime\<lparr>extracts := [initial_record \<lparr>name = js ''c''\<rparr>], extractsLength := 1,
                      tasks := [0, 0], owner := [1]\<rparr> \<and>
   extracts (run initial_runtime
     [HandleFiles (Some [\<lparr>name = js ''a''\<rparr>]), ClearAll,
      HandleFiles (Some [\<lparr>name = js ''c''\<rparr>]), TaskEvent 0 (Resolved (Some (js ''x'')))]) =
     [\<lparr>fileName = js ''c'', ocrText = js ''x'', progress = 1, status = Done, errorMsg = None\<rparr>] \<and>
   \<not> own_records_only initial_runtime
     [HandleFiles (Some [\<lparr>name = js ''a''\<rparr>]), ClearAll,
      HandleFiles (Some [\<lparr>name = js ''c''\<rparr>]), TaskEvent 0 (Resolved (Some (js ''x'')))]"
  by (simp add: state_eval)

text \<open>
  Claim C3 fails on the code for the same reason. In the run above the record of
  \<open>c\<close> is completed by its own task and is then changed once more when the
  task of \<open>a\<close>, started before the clear, fails: a record that was done becomes
  an error.
\<close>

theorem done_record_changed_by_stale_task:
  "extracts (run initial_runtime
     [HandleFiles (Some [\<lparr>name = js ''a''\<rparr>]), ClearAll,
      HandleFiles (Some [\<lparr>name = js ''c''\<rparr>]), TaskEvent 1 (Resolved (Some (js ''c1'')))]) =
     [\<lparr>fileName = js ''c'', ocrText = js ''c1'', progress = 1, status = Done, errorMsg = None\<rparr>] \<and>
   extracts (run initial_runtime
     [HandleFiles (Some [\<lparr>name = js ''a''\<rparr>]), ClearAll,
      HandleFiles (Some [\<lparr>name = js ''c''\<rparr>]), TaskEvent 1 (Resolved (Some (js ''c1''))),
      TaskEvent 0 (Rejected None)]) =
     [\<lparr>fileName = js ''c'', ocrText = js ''c1'', progress = 1, status = Error,
        errorMsg = Some (js ''OCR failed'')\<rparr>]"
  by (simp add: state_eval)

section \<open>The claims about the row accumulator\<close>

lemma sum_take_length_concat:
  "i < length bs \<Longrightarrow> j < length (bs ! i) \<Longrightarrow>
   concat bs ! (sum_list (map length (take i bs)) + j) = bs ! i ! j"
proof (induction bs arbitrary: i)
  case Nil
  then show ?case by simp
next
  case (Cons b bs)
  show ?case
  proof (cases i)
    case 0
    with Cons.prems show ?thesis by (simp add: nth_append)
  next
    case (Suc i')
    with Cons.prems Cons.IH [of i'] show ?thesis by (simp add: nth_append)
  qed
qed

text \<open>
  Claim C7. Appending the parsed blocks adds as many rows as the blocks hold
  together, after the rows that were there, which stay as they were; the rows come
  block by block and, inside a block, in the block's order: row \<open>j\<close> of block
  \<open>i\<close> stands after the old rows and the rows of the blocks before \<open>i\<close>.
\<close>

theorem append_adds_all_blocks_in_order:
  assumes "parsedBlocks RegExp_g s = Inr blocks"
  shows "rows (handleAppend RegExp_g s) = rows s @ concat blocks \<and>
         length (rows (handleAppend RegExp_g s)) =
           length (rows s) + sum_list (map length blocks) \<and>
         take (length (rows s)) (rows (handleAppend RegExp_g s)) = rows s \<and>
         (\<forall>i < length blocks. \<forall>j < length (blocks ! i).
            rows (handleAppend RegExp_g s) !
              (length (rows s) + sum_list (map length (take i blocks)) + j) = blocks ! i ! j)"
proof -
  have r: "rows (handleAppend RegExp_g s) = rows s @ concat blocks"
    using assms by (simp add: handleAppend_def append_blocks_def)
  have "(rows s @ concat blocks) ! (length (rows s) + sum_list (map length (take i blocks)) + j)
          = blocks ! i ! j" if "i < length blocks" "j < length (blocks ! i)" for i j
    using sum_take_length_concat [OF that] by (simp add: nth_append add.assoc)
  then show ?thesis
    by (simp add: r length_concat)
qed

theorem append_adds_all_blocks_in_order_witness:
  "rows (handleAppend (\<lambda>p. Inl SyntaxError)
     ((run initial_runtime
        [HandleFiles (Some [\<lparr>name = js ''f1''\<rparr>, \<lparr>name = js ''f2''\<rparr>, \<lparr>name = js ''f3''\<rparr>]),
         TaskEvent 0 (Rejected None),
         TaskEvent 2 (Resolved (Some (js ''e,f''))),
         TaskEvent 1 (Resolved (Some (js ''a,b'' @ [LF] @ js ''c,d'')))])
      \<lparr>rows := [[js ''x'']]\<rparr>)) =
   [[js ''x''], [js ''a'', js ''b''], [js ''c'', js ''d''], [js ''e'', js ''f'']]"
proof -
  let ?s = "(run initial_runtime
        [HandleFiles (Some [\<lparr>name = js ''f1''\<rparr>, \<lparr>name = js ''f2''\<rparr>, \<lparr>name = js ''f3''\<rparr>]),
         TaskEvent 0 (Rejected None),
         TaskEvent 2 (Resolved (Some (js ''e,f''))),
         TaskEvent 1 (Resolved (Some (js ''a,b'' @ [LF] @ js ''c,d'')))])
      \<lparr>rows := [[js ''x'']]\<rparr>"
  have b: "parsedBlocks (\<lambda>p. Inl SyntaxError) ?s =
           Inr [[[js ''a'', js ''b''], [js ''c'', js ''d'']], [[js ''e'', js ''f'']]]"
    by (simp add: parsedBlocks_def state_eval parse_eval)
  have r: "rows ?s = [[js ''x'']]"
    by simp
  from append_adds_all_blocks_in_order [OF b] r show ?thesis by simp
qed

text \<open>
  Claim C9. The button that clears the rows empties the rows and nothing else: the
  input of the column labels, and with it the labels, are what they were.
\<close>

theorem clear_rows_keeps_columns:
  "rows (clearRows s) = [] \<and> columnsInput (clearRows s) = columnsInput s \<and>
   columns (clearRows s) = columns s \<and> extracts (clearRows s) = extracts s \<and>
   delimiterSel (clearRows s) = delimiterSel s \<and> patternInput (clearRows s) = patternInput s"
  by (simp add: clearRows_def columns_def)

end
